theory Spec2Isabelle
  imports Complex_Main "HOL-Library.AList" "HOL-Library.Sublist"
begin

section \<open>Data model of the knowledge-graph component\<close>

text \<open>
  The component \<open>KnowledgeGraph\<close> (second module of
  \<open>frontend/src/components/NotesPanel.tsx\<close>) receives \<open>graphData\<close>, derives
  \<open>enrichedData\<close> (canonical nodes and links, with a size per node), derives
  \<open>filteredData\<close> from it and the search box, and draws the result.

  JavaScript objects are modelled as records whose optional attributes are options
  (\<open>None\<close> is \<open>undefined\<close>). Strings are \<open>string\<close>; numbers that are counts are
  \<open>nat\<close>; the other numbers are \<open>real\<close>, so the rounding of IEEE doubles is not part of
  the model. A coordinate written by the force simulation may be \<open>NaN\<close> or infinite, which
  \<open>jsnum\<close> keeps apart from the finite values.
\<close>

datatype jsnum = Num real | NaN | PosInfinity | NegInfinity

text \<open>
  \<open>interface GraphNode { id; name; val; group? }\<close>. The attributes \<open>connections\<close> and
  \<open>importance\<close> are added by \<open>enrichedData\<close>, the coordinates by the force simulation.
\<close>

record graph_node =
  node_id :: string
  node_name :: string
  val :: real
  group :: "string option"
  connections :: "nat option"
  importance :: "real option"
  node_x :: "jsnum option"
  node_y :: "jsnum option"

text \<open>\<open>interface GraphLink { source: string | GraphNode; target: string | GraphNode }\<close>\<close>

datatype link_end = EndId string | EndNode graph_node

record graph_link =
  source :: link_end
  target :: link_end

text \<open>
  The record of the neighbour-list format, as \<open>types/graph.ts\<close> declares it:
  \<open>{ name: string; ins: string[]; outs: string[]; ... }\<close>. Both lists are required
  there, so the tests \<open>if (node.ins)\<close> and \<open>if (node.outs)\<close> of the converter always
  succeed on a record of this type.
\<close>

record raw_record =
  name :: string
  ins :: "string list"
  outs :: "string list"

text \<open>
  The shapes of \<open>graphData\<close> that the branches of \<open>enrichedData\<close> tell apart:
  \<open>nodes\<close> and \<open>links\<close> both arrays; \<open>nodes\<close> an array of neighbour-list records;
  \<open>nodes\<close> an array of plain nodes and no \<open>links\<close>; and no array \<open>nodes\<close> at all.
\<close>

datatype graph_data =
    NodesAndLinks "graph_node list" "graph_link list"
  | NeighborLists "raw_record list"
  | NodesOnly "graph_node list"
  | NoNodes

record graph =
  nodes :: "graph_node list"
  links :: "graph_link list"


section \<open>Graph model builder\<close>

text \<open>The object \<open>{ id: n, name: n, val: 1 }\<close> stored for a name in both loops of the first pass.\<close>

definition new_node :: "string \<Rightarrow> graph_node" where
  "new_node n = \<lparr>node_id = n, node_name = n, val = 1, group = None,
                 connections = None, importance = None, node_x = None, node_y = None\<rparr>"

text \<open>
  \<open>nodeMap\<close> is a JavaScript \<open>Map\<close>: it iterates in the order of first insertion, and
  \<open>set\<close> on a present key replaces the value where it stands. That is
  \<^const>\<open>AList.update\<close> on an association list.
\<close>

type_synonym node_map = "(string \<times> graph_node) list"

definition map_has :: "(string \<times> 'v) list \<Rightarrow> string \<Rightarrow> bool" where
  "map_has m k = (map_of m k \<noteq> None)"

definition add_referenced :: "string \<Rightarrow> node_map \<Rightarrow> node_map" where
  "add_referenced n m = (if \<not> map_has m n then AList.update n (new_node n) m else m)"

definition first_pass_record :: "raw_record \<Rightarrow> node_map \<Rightarrow> node_map" where
  "first_pass_record r m =
     fold add_referenced (outs r)
       (fold add_referenced (ins r)
          (AList.update (name r) (new_node (name r)) m))"

definition first_pass :: "raw_record list \<Rightarrow> graph_node list" where
  "first_pass rs = map snd (fold first_pass_record rs [])"

text \<open>The second pass: \<open>linkSet\<close> holds the keys seen, \<open>links\<close> grows at its end.\<close>

definition linkId :: "string \<Rightarrow> string \<Rightarrow> string" where
  "linkId s t = s @ ''-'' @ t"

definition new_link :: "string \<Rightarrow> string \<Rightarrow> graph_link" where
  "new_link s t = \<lparr>source = EndId s, target = EndId t\<rparr>"

definition add_link :: "string \<Rightarrow> string \<Rightarrow> string set \<times> graph_link list
    \<Rightarrow> string set \<times> graph_link list" where
  "add_link s t st =
     (if linkId s t \<notin> fst st then (insert (linkId s t) (fst st), snd st @ [new_link s t])
      else st)"

definition second_pass_record :: "raw_record \<Rightarrow> string set \<times> graph_link list
    \<Rightarrow> string set \<times> graph_link list" where
  "second_pass_record r st =
     fold (\<lambda>inNode. add_link inNode (name r)) (ins r)
       (fold (\<lambda>outNode. add_link (name r) outNode) (outs r) st)"

definition second_pass :: "raw_record list \<Rightarrow> graph_link list" where
  "second_pass rs = snd (fold second_pass_record rs ({}, []))"


section \<open>Importance scorer\<close>

text \<open>\<open>typeof e === "string" ? e : e.id\<close>\<close>

fun end_id :: "link_end \<Rightarrow> string" where
  "end_id (EndId s) = s"
| "end_id (EndNode n) = node_id n"

type_synonym count_map = "(string \<times> nat) list"

text \<open>\<open>connectionCount.set(k, (connectionCount.get(k) || 0) + 1)\<close>\<close>

definition bump :: "string \<Rightarrow> count_map \<Rightarrow> count_map" where
  "bump k m = AList.update k ((case map_of m k of None \<Rightarrow> 0 | Some c \<Rightarrow> c) + 1) m"

definition count_link :: "graph_link \<Rightarrow> count_map \<Rightarrow> count_map" where
  "count_link l m = bump (end_id (target l)) (bump (end_id (source l)) m)"

definition connectionCount :: "graph_link list \<Rightarrow> count_map" where
  "connectionCount ls = fold count_link ls []"

text \<open>\<open>Math.max(...Array.from(connectionCount.values()), 1)\<close>\<close>

definition maxConnections :: "count_map \<Rightarrow> nat" where
  "maxConnections m = fold max (map snd m) 1"

text \<open>
  The body of \<open>nodes.map\<close>: \<open>connectionCount.get(node.id) || 1\<close> is 1 for an id that is
  not a key and for a stored 0.
\<close>

definition node_connections :: "count_map \<Rightarrow> graph_node \<Rightarrow> nat" where
  "node_connections m n =
     (case map_of m (node_id n) of None \<Rightarrow> 1 | Some c \<Rightarrow> if c = 0 then 1 else c)"

definition baseSize :: real where "baseSize = 25"
definition maxSize :: real where "maxSize = 70"

definition enrich_node :: "count_map \<Rightarrow> graph_node \<Rightarrow> graph_node" where
  "enrich_node m n =
     (let c = node_connections m n;
          imp = real c / real (maxConnections m);
          size = baseSize + imp * (maxSize - baseSize)
      in n\<lparr>val := size, connections := Some c, importance := Some imp\<rparr>)"

text \<open>Lines 264 to 299: \<open>null\<close> for an empty node array, the enriched graph otherwise.\<close>

definition score :: "graph_node list \<Rightarrow> graph_link list \<Rightarrow> graph option" where
  "score ns ls =
     (if ns = [] then None
      else Some \<lparr>nodes = map (enrich_node (connectionCount ls)) ns, links = ls\<rparr>)"

text \<open>
  \<open>enrichedData\<close>. The neighbour-list branch is taken when the first record has \<open>ins\<close>
  or \<open>outs\<close>, which for records of type \<^typ>\<open>raw_record\<close> is when there is a first
  record; an empty array falls to the last branch and leaves \<open>nodes\<close> empty.
\<close>

definition enrichedData :: "graph_data option \<Rightarrow> graph option" where
  "enrichedData graphData =
     (case graphData of
        None \<Rightarrow> None
      | Some (NodesAndLinks ns ls) \<Rightarrow> score ns ls
      | Some (NeighborLists rs) \<Rightarrow>
          (if rs \<noteq> [] then score (first_pass rs) (second_pass rs) else None)
      | Some (NodesOnly ns) \<Rightarrow> score ns []
      | Some NoNodes \<Rightarrow> None)"


section \<open>Search and neighbourhood filter\<close>

text \<open>
  Strings are lists of 8-bit code units, so the model covers the names and queries whose
  UTF-16 code units lie below 256. There \<open>String.prototype.trim\<close> removes the code units
  9 to 13, 32 and 160 from both ends, and \<open>toLowerCase\<close> adds 32 to the letters A to Z and
  to the code units 192 to 222 other than 215. The properties proved of the filter hold
  whatever characters these two functions treat.
\<close>

definition is_whitespace :: "char \<Rightarrow> bool" where
  "is_whitespace c = ((of_char c :: nat) \<in> {9, 10, 11, 12, 13, 32, 160})"

definition trim :: "string \<Rightarrow> string" where
  "trim s = rev (dropWhile is_whitespace (rev (dropWhile is_whitespace s)))"

definition lower_char :: "char \<Rightarrow> char" where
  "lower_char c =
     (let k = (of_char c :: nat)
      in if (65 \<le> k \<and> k \<le> 90) \<or> (192 \<le> k \<and> k \<le> 222 \<and> k \<noteq> 215)
         then char_of (k + 32) else c)"

definition toLowerCase :: "string \<Rightarrow> string" where
  "toLowerCase s = map lower_char s"

text \<open>\<open>s.includes(q)\<close>: \<open>q\<close> occurs in \<open>s\<close> as a contiguous run.\<close>

fun str_includes :: "string \<Rightarrow> string \<Rightarrow> bool" where
  "str_includes [] q = (q = [])"
| "str_includes (c # cs) q = (prefix q (c # cs) \<or> str_includes cs q)"

definition matches :: "string \<Rightarrow> graph_node \<Rightarrow> bool" where
  "matches query n = str_includes (toLowerCase (node_name n)) query"

text \<open>The body of the loop over \<open>enrichedData.links\<close> that grows \<open>expandedIds\<close>.\<close>

definition expand_link :: "string set \<Rightarrow> graph_link \<Rightarrow> string set \<Rightarrow> string set" where
  "expand_link matchedIds l expandedIds =
     (let src = end_id (source l);
          tgt = end_id (target l);
          e = (if src \<in> matchedIds then insert tgt expandedIds else expandedIds)
      in if tgt \<in> matchedIds then insert src e else e)"

definition filteredData :: "graph option \<Rightarrow> string \<Rightarrow> graph option" where
  "filteredData enriched searchQuery =
     (case enriched of
        None \<Rightarrow> None
      | Some g \<Rightarrow>
          if trim searchQuery = [] then Some g
          else
            let query = toLowerCase searchQuery;
                matchedIds = set (map node_id (filter (matches query) (nodes g)));
                expandedIds = fold (expand_link matchedIds) (links g) matchedIds
            in Some \<lparr>nodes = filter (\<lambda>n. node_id n \<in> expandedIds) (nodes g),
                     links = filter (\<lambda>l. end_id (source l) \<in> expandedIds
                                          \<and> end_id (target l) \<in> expandedIds) (links g)\<rparr>)"

text \<open>
  The sub-graph in the words of the specification, to compare \<^const>\<open>filteredData\<close> with:
  a seed is the id of a node whose name contains the query when both are lower-cased; the
  expanded set holds the seeds and every id joined to a seed by a link, in either direction.
\<close>

definition is_seed :: "graph \<Rightarrow> string \<Rightarrow> string \<Rightarrow> bool" where
  "is_seed g q k =
     (\<exists>n \<in> set (nodes g). node_id n = k \<and> str_includes (toLowerCase (node_name n)) (toLowerCase q))"

definition one_hop :: "graph \<Rightarrow> string \<Rightarrow> string \<Rightarrow> bool" where
  "one_hop g q k =
     (is_seed g q k \<or>
      (\<exists>l \<in> set (links g).
         (is_seed g q (end_id (source l)) \<and> end_id (target l) = k) \<or>
         (is_seed g q (end_id (target l)) \<and> end_id (source l) = k)))"

definition node_ids :: "graph \<Rightarrow> string set" where
  "node_ids g = node_id ` set (nodes g)"

definition no_dangling :: "graph \<Rightarrow> bool" where
  "no_dangling g =
     (\<forall>l \<in> set (links g). end_id (source l) \<in> node_ids g \<and> end_id (target l) \<in> node_ids g)"


section \<open>Selection and the definition fetch\<close>

text \<open>
  The state that \<open>handleNodeClick\<close> and \<open>fetchConceptDefinition\<close> write. An \<open>await\<close>
  splits \<open>fetchConceptDefinition\<close> in two: the part before it runs inside the click, the
  part after it runs as an event of its own when the response arrives. \<open>in_flight\<close> lists
  the concepts whose responses have not arrived; the component keeps no such list.
\<close>

record view_state =
  selectedNode :: "graph_node option"
  showNotes :: bool
  conceptDefinition :: string
  loadingDef :: bool
  relatedConcepts :: "string list"
  in_flight :: "string list"

definition initial_state :: view_state where
  "initial_state = \<lparr>selectedNode = None, showNotes = False, conceptDefinition = [],
                     loadingDef = False, relatedConcepts = [], in_flight = []\<rparr>"

text \<open>
  How a request ends: a response with \<open>ok\<close> and the attribute \<open>definition\<close> of its body
  (absent is \<open>None\<close>), a response without \<open>ok\<close>, or an exception.
\<close>

datatype fetch_outcome = ResponseOk "string option" | ResponseNotOk | FetchError

definition outcome_text :: "fetch_outcome \<Rightarrow> string" where
  "outcome_text out =
     (case out of
        ResponseOk d \<Rightarrow>
          (case d of None \<Rightarrow> ''No definition available''
                   | Some s \<Rightarrow> if s = [] then ''No definition available'' else s)
      | ResponseNotOk \<Rightarrow> ''No definition available.''
      | FetchError \<Rightarrow> ''Error fetching definition'')"

text \<open>\<open>neighbors.add\<close> on a JavaScript \<open>Set\<close>, read back in insertion order.\<close>

definition set_add :: "string \<Rightarrow> string list \<Rightarrow> string list" where
  "set_add k xs = (if k \<in> set xs then xs else xs @ [k])"

definition getRelatedConcepts :: "graph option \<Rightarrow> string \<Rightarrow> string list" where
  "getRelatedConcepts filtered nodeId =
     (case filtered of
        None \<Rightarrow> []
      | Some g \<Rightarrow>
          fold (\<lambda>l neighbors.
                  let src = end_id (source l);
                      tgt = end_id (target l);
                      n1 = (if src = nodeId then set_add tgt neighbors else neighbors)
                  in if tgt = nodeId then set_add src n1 else n1)
               (links g) [])"

text \<open>\<open>fetchConceptDefinition\<close> up to its \<open>await\<close>; \<open>!projectId\<close> holds for no id and for \<open>""\<close>.\<close>

definition fetch_start :: "string option \<Rightarrow> string \<Rightarrow> view_state \<Rightarrow> view_state" where
  "fetch_start projectId nodeId st =
     (if projectId = None \<or> projectId = Some [] then st
      else st\<lparr>loadingDef := True, in_flight := in_flight st @ [nodeId]\<rparr>)"

text \<open>
  \<open>fetchConceptDefinition\<close> after its \<open>await\<close>, for the request made for \<open>nodeId\<close>:
  one of the three calls of \<open>setConceptDefinition\<close>, then \<open>setLoadingDef(false)\<close>.
\<close>

definition fetch_resolve :: "string \<Rightarrow> fetch_outcome \<Rightarrow> view_state \<Rightarrow> view_state" where
  "fetch_resolve nodeId out st =
     st\<lparr>conceptDefinition := outcome_text out, loadingDef := False,
        in_flight := remove1 nodeId (in_flight st)\<rparr>"

definition handleNodeClick :: "graph option \<Rightarrow> string option \<Rightarrow> graph_node \<Rightarrow> view_state
    \<Rightarrow> view_state" where
  "handleNodeClick filtered projectId node st =
     fetch_start projectId (node_id node)
       (st\<lparr>selectedNode := Some node, showNotes := True,
           relatedConcepts := getRelatedConcepts filtered (node_id node)\<rparr>)"

datatype event = Click graph_node | Arrive string fetch_outcome | ClosePanel

text \<open>
  \<open>if (!filteredData || filteredData.nodes.length === 0) return ...\<close>: with no graph or
  no node to show the component renders the placeholder and nothing else.
\<close>

definition shows_graph :: "graph option \<Rightarrow> bool" where
  "shows_graph filtered = (case filtered of None \<Rightarrow> False | Some g \<Rightarrow> nodes g \<noteq> [])"

definition drawn_nodes :: "graph option \<Rightarrow> graph_node list" where
  "drawn_nodes filtered = (case filtered of None \<Rightarrow> [] | Some g \<Rightarrow> nodes g)"

text \<open>
  The events of the component. A click is on a node that is drawn, in the network or in the
  timeline: one of \<open>filteredData.nodes\<close>. A response arrives for a request in flight.
  The button of the panel closes it. An event that cannot occur leaves the state.
\<close>

definition step :: "graph option \<Rightarrow> string option \<Rightarrow> event \<Rightarrow> view_state \<Rightarrow> view_state" where
  "step filtered projectId ev st =
     (case ev of
        Click node \<Rightarrow>
          if node \<in> set (drawn_nodes filtered) then handleNodeClick filtered projectId node st
          else st
      | Arrive nodeId out \<Rightarrow>
          if nodeId \<in> set (in_flight st) then fetch_resolve nodeId out st else st
      | ClosePanel \<Rightarrow> st\<lparr>showNotes := False\<rparr>)"

definition run :: "graph option \<Rightarrow> string option \<Rightarrow> event list \<Rightarrow> view_state \<Rightarrow> view_state" where
  "run filtered projectId evs st = fold (step filtered projectId) evs st"

text \<open>
  What \<open>NotesPanel\<close> shows, once the component is mounted: nothing where the component
  returns the placeholder for a missing or empty \<open>filteredData\<close>, and nothing unless
  \<open>showNotes && selectedNode\<close>; otherwise the name of the selected node and, in the
  definition box, the spinner, the definition, or the placeholder for an empty definition.
\<close>

datatype panel_body = Loading | Definition string | NoDefinitionYet

definition panel :: "graph option \<Rightarrow> view_state \<Rightarrow> (string \<times> panel_body) option" where
  "panel filtered st =
     (if \<not> shows_graph filtered then None
      else
        (case selectedNode st of
           None \<Rightarrow> None
         | Some node \<Rightarrow>
             if \<not> showNotes st then None
             else Some (node_name node,
                        if loadingDef st then Loading
                        else if conceptDefinition st \<noteq> []
                             then Definition (conceptDefinition st)
                        else NoDefinitionYet)))"


section \<open>Render callbacks\<close>

text \<open>
  The canvas is modelled by the list of drawing calls made on it, each with the geometry of
  its path: a filled or stroked full circle (centre and radius), a stroked quadratic curve
  (start, control point, end) and a text (string and position). Assignments of styles and the
  construction of gradients draw nothing and are left out.
\<close>

datatype canvas_op =
    FillCircle real real real
  | StrokeCircle real real real
  | StrokeCurve real real real real real real
  | FillText string real real

text \<open>\<open>Number.isFinite(v)\<close>: false for \<open>undefined\<close>, \<open>NaN\<close> and the two infinities.\<close>

definition isFinite :: "jsnum option \<Rightarrow> bool" where
  "isFinite v = (case v of Some (Num r) \<Rightarrow> True | _ \<Rightarrow> False)"

text \<open>
  The two coordinates of a node when \<open>Number.isFinite(node.x)\<close> and
  \<open>Number.isFinite(node.y)\<close> both hold, \<open>None\<close> when one of them fails.
\<close>

definition finite_xy :: "graph_node \<Rightarrow> (real \<times> real) option" where
  "finite_xy n =
     (case (node_x n, node_y n) of
        (Some (Num a), Some (Num b)) \<Rightarrow> Some (a, b)
      | _ \<Rightarrow> None)"

definition node_label :: "graph_node \<Rightarrow> string" where
  "node_label n =
     (if length (node_name n) > 20 then take 18 (node_name n) @ ''...'' else node_name n)"

definition nodeCanvasObject :: "graph_node option \<Rightarrow> graph_node \<Rightarrow> canvas_op list" where
  "nodeCanvasObject hoveredNode node =
     (case finite_xy node of
        None \<Rightarrow> []
      | Some (a, b) \<Rightarrow>
          let size = (if val node = 0 then 18 else val node);
              isHovered = (case hoveredNode of None \<Rightarrow> False
                                             | Some h \<Rightarrow> node_id h = node_id node)
          in map (\<lambda>i. FillCircle a b (size + real i * 8)) [3, 2, 1 :: nat]
             @ (if size > 25 then [StrokeCircle a b (size + 12)] else [])
             @ [FillCircle a b size, FillCircle a b size, StrokeCircle a b size]
             @ (if isHovered \<or> size > 30
                then [FillText (node_label node) (a + 1) (b + size + 16),
                      FillText (node_label node) a (b + size + 15)]
                else []))"

text \<open>
  \<open>typeof e === "object" ? e : filteredData.nodes.find((n) => n.id === e)\<close>;
  \<open>None\<close> is the \<open>undefined\<close> of a failed search.
\<close>

definition resolve_end :: "graph \<Rightarrow> link_end \<Rightarrow> graph_node option" where
  "resolve_end filtered e =
     (case e of
        EndNode n \<Rightarrow> Some n
      | EndId k \<Rightarrow> find (\<lambda>n. node_id n = k) (nodes filtered))"

text \<open>\<open>linkId.split('').reduce((a, b) => a + b.charCodeAt(0), 0)\<close>\<close>

definition linkHash :: "string \<Rightarrow> nat" where
  "linkHash s = fold (\<lambda>b a. a + of_char b) s 0"

definition particleOffset :: "graph_node \<Rightarrow> graph_node \<Rightarrow> real" where
  "particleOffset srcNode tgtNode =
     real (linkHash (linkId (node_id srcNode) (node_id tgtNode)) mod 100) / 100"

text \<open>\<open>(animationTick * 0.02 + particleOffset + p * 0.5) % 1\<close>, on a sum that is not negative.\<close>

definition particle_t :: "nat \<Rightarrow> real \<Rightarrow> nat \<Rightarrow> real" where
  "particle_t animationTick offset p = frac (real animationTick * 0.02 + offset + real p * 0.5)"

definition bezier :: "real \<Rightarrow> real \<Rightarrow> real \<Rightarrow> real \<Rightarrow> real" where
  "bezier t p0 c p1 = (1 - t)\<^sup>2 * p0 + 2 * (1 - t) * t * c + t\<^sup>2 * p1"

definition linkCanvasObject :: "graph \<Rightarrow> nat \<Rightarrow> graph_link \<Rightarrow> canvas_op list" where
  "linkCanvasObject filtered animationTick link =
     (case (resolve_end filtered (source link), resolve_end filtered (target link)) of
        (Some srcNode, Some tgtNode) \<Rightarrow>
          (case (finite_xy srcNode, finite_xy tgtNode) of
             (Some (sx, sy), Some (tx, ty)) \<Rightarrow>
               let midX = (sx + tx) / 2;
                   midY = (sy + ty) / 2;
                   dx = tx - sx;
                   dy = ty - sy;
                   curvature = 0.15;
                   ctrlX = midX - dy * curvature;
                   ctrlY = midY + dx * curvature;
                   offset = particleOffset srcNode tgtNode
               in StrokeCurve sx sy ctrlX ctrlY tx ty
                  # map (\<lambda>p. let t = particle_t animationTick offset p
                              in FillCircle (bezier t sx ctrlX tx) (bezier t sy ctrlY ty) 2.5)
                        [0, 1 :: nat]
           | _ \<Rightarrow> [])
      | _ \<Rightarrow> [])"


section \<open>Notions used to state the properties\<close>

text \<open>
  The declarations of a record as pairs (source, target), in the order in which the second
  pass reads them: the outgoing ones, then the incoming ones.
\<close>

definition record_pairs :: "raw_record \<Rightarrow> (string \<times> string) list" where
  "record_pairs r =
     map (\<lambda>outNode. (name r, outNode)) (outs r) @ map (\<lambda>inNode. (inNode, name r)) (ins r)"

definition declared_pairs :: "raw_record list \<Rightarrow> (string \<times> string) list" where
  "declared_pairs rs = concat (map record_pairs rs)"

definition record_names :: "raw_record \<Rightarrow> string set" where
  "record_names r = insert (name r) (set (ins r) \<union> set (outs r))"

definition link_pair :: "graph_link \<Rightarrow> string \<times> string" where
  "link_pair l = (end_id (source l), end_id (target l))"

definition pair_key :: "string \<times> string \<Rightarrow> string" where
  "pair_key p = linkId (fst p) (snd p)"

definition add_pair :: "string \<times> string \<Rightarrow> string set \<times> graph_link list
    \<Rightarrow> string set \<times> graph_link list" where
  "add_pair p = add_link (fst p) (snd p)"

text \<open>The invariants of the two passes.\<close>

definition node_map_ok :: "node_map \<Rightarrow> bool" where
  "node_map_ok m = (distinct (map fst m) \<and> (\<forall>p \<in> set m. snd p = new_node (fst p)))"

definition link_state_ok :: "string set \<times> graph_link list \<Rightarrow> bool" where
  "link_state_ok st =
     (fst st = set (map (pair_key \<circ> link_pair) (snd st))
      \<and> distinct (map (pair_key \<circ> link_pair) (snd st)))"

text \<open>The number of link ends at the id \<open>k\<close>; a link from \<open>k\<close> to \<open>k\<close> counts twice.\<close>

definition degree :: "graph_link list \<Rightarrow> string \<Rightarrow> nat" where
  "degree ls k = length (filter (\<lambda>l. end_id (source l) = k) ls)
               + length (filter (\<lambda>l. end_id (target l) = k) ls)"

definition stored :: "count_map \<Rightarrow> string \<Rightarrow> nat" where
  "stored m k = (case map_of m k of None \<Rightarrow> 0 | Some c \<Rightarrow> c)"

definition one_hop_graph :: "graph \<Rightarrow> string \<Rightarrow> graph" where
  "one_hop_graph g q =
     \<lparr>nodes = filter (\<lambda>n. one_hop g q (node_id n)) (nodes g),
      links = filter (\<lambda>l. one_hop g q (end_id (source l)) \<and> one_hop g q (end_id (target l)))
                (links g)\<rparr>"


section \<open>Inputs used in the examples\<close>

text \<open>\<open>[{name: "A", ins: [], outs: ["B"]}, {name: "B", ins: ["A"], outs: []}]\<close>\<close>

definition scenario_AB :: "raw_record list" where
  "scenario_AB = [\<lparr>name = ''A'', ins = [], outs = [''B'']\<rparr>,
                  \<lparr>name = ''B'', ins = [''A''], outs = []\<rparr>]"

definition graph_AB :: graph where
  "graph_AB =
     \<lparr>nodes =
        [\<lparr>node_id = ''A'', node_name = ''A'', val = 70, group = None,
          connections = Some 1, importance = Some 1, node_x = None, node_y = None\<rparr>,
         \<lparr>node_id = ''B'', node_name = ''B'', val = 70, group = None,
          connections = Some 1, importance = Some 1, node_x = None, node_y = None\<rparr>],
      links = [\<lparr>source = EndId ''A'', target = EndId ''B''\<rparr>]\<rparr>"

text \<open>One record, no neighbours.\<close>

definition lone_A :: "raw_record list" where
  "lone_A = [\<lparr>name = ''A'', ins = [], outs = []\<rparr>]"

definition graph_lone_A :: graph where
  "graph_lone_A =
     \<lparr>nodes =
        [\<lparr>node_id = ''A'', node_name = ''A'', val = 70, group = None,
          connections = Some 1, importance = Some 1, node_x = None, node_y = None\<rparr>],
      links = []\<rparr>"

text \<open>Names that contain the delimiter of the link key.\<close>

definition hyphen_first :: "raw_record list" where
  "hyphen_first = [\<lparr>name = ''A-B'', ins = [], outs = [''C'']\<rparr>,
                   \<lparr>name = ''A'', ins = [], outs = [''B-C'']\<rparr>]"

definition hyphen_both_ways :: "raw_record list" where
  "hyphen_both_ways = [\<lparr>name = ''A'', ins = [], outs = [''B-C'']\<rparr>,
                       \<lparr>name = ''A-B'', ins = [], outs = [''C'']\<rparr>,
                       \<lparr>name = ''C'', ins = [''A-B''], outs = []\<rparr>]"

text \<open>
  The same three records twice: the pair (A-B, C) declared as outgoing on A-B, and declared
  as incoming on C.
\<close>

definition hyphen_outgoing :: "raw_record list" where
  "hyphen_outgoing = [\<lparr>name = ''A-B'', ins = [], outs = [''C'']\<rparr>,
                      \<lparr>name = ''A'', ins = [], outs = [''B-C'']\<rparr>,
                      \<lparr>name = ''C'', ins = [], outs = []\<rparr>]"

definition hyphen_incoming :: "raw_record list" where
  "hyphen_incoming = [\<lparr>name = ''A-B'', ins = [], outs = []\<rparr>,
                      \<lparr>name = ''A'', ins = [], outs = [''B-C'']\<rparr>,
                      \<lparr>name = ''C'', ins = [''A-B''], outs = []\<rparr>]"

text \<open>A chain of three nodes, to search in.\<close>

definition graph_chain :: graph where
  "graph_chain = \<lparr>nodes = [new_node ''Alpha'', new_node ''Beta'', new_node ''Gamma''],
                   links = [new_link ''Alpha'' ''Beta'', new_link ''Beta'' ''Gamma'']\<rparr>"

text \<open>
  A graph during the warm-up of the simulation, where B has no finite position yet and the
  second link names a node that is not there, and the same graph once B has settled.
\<close>

definition node_at :: "string \<Rightarrow> jsnum \<Rightarrow> jsnum \<Rightarrow> graph_node" where
  "node_at k a b = (new_node k)\<lparr>node_x := Some a, node_y := Some b\<rparr>"

definition graph_warming :: graph where
  "graph_warming = \<lparr>nodes = [node_at ''A'' (Num 0) (Num 0), node_at ''B'' NaN (Num 4)],
                     links = [new_link ''A'' ''B'', new_link ''A'' ''C'']\<rparr>"

definition graph_settled :: graph where
  "graph_settled = \<lparr>nodes = [node_at ''A'' (Num 0) (Num 0), node_at ''B'' (Num 4) (Num 4)],
                     links = [new_link ''A'' ''B'', new_link ''A'' ''C'']\<rparr>"

text \<open>
  The graph built from \<open>[{name: "X", ins: [], outs: ["Y"]}, {name: "Y", ins: [], outs: []}]\<close>,
  with its two nodes, to click on.
\<close>

definition concept_X :: graph_node where
  "concept_X = \<lparr>node_id = ''X'', node_name = ''X'', val = 70, group = None,
                 connections = Some 1, importance = Some 1, node_x = None, node_y = None\<rparr>"

definition concept_Y :: graph_node where
  "concept_Y = \<lparr>node_id = ''Y'', node_name = ''Y'', val = 70, group = None,
                 connections = Some 1, importance = Some 1, node_x = None, node_y = None\<rparr>"

definition graph_XY :: graph where
  "graph_XY = \<lparr>nodes = [concept_X, concept_Y],
                links = [\<lparr>source = EndId ''X'', target = EndId ''Y''\<rparr>]\<rparr>"

text \<open>A pair of nodes linked in both directions.\<close>

definition two_way :: "raw_record list" where
  "two_way = [\<lparr>name = ''A'', ins = [''B''], outs = [''B'']\<rparr>,
              \<lparr>name = ''B'', ins = [], outs = []\<rparr>]"


section \<open>Properties of the builder\<close>

lemmas build_defs = enrichedData_def score_def first_pass_def second_pass_def
  first_pass_record_def second_pass_record_def add_referenced_def map_has_def add_link_def
  linkId_def new_link_def new_node_def connectionCount_def count_link_def bump_def
  enrich_node_def node_connections_def maxConnections_def baseSize_def maxSize_def Let_def

subsection \<open>First pass\<close>

lemma map_has_iff: "map_has m k \<longleftrightarrow> k \<in> fst ` set m"
  by (simp add: map_has_def map_of_eq_None_iff)

lemma add_referenced_keys: "fst ` set (add_referenced n m) = insert n (fst ` set m)"
  by (auto simp: add_referenced_def map_has_iff AList.dom_update)

lemma fold_add_referenced_keys: "fst ` set (fold add_referenced xs m) = set xs \<union> fst ` set m"
  by (induction xs arbitrary: m) (auto simp: add_referenced_keys)

lemma first_pass_record_keys:
  "fst ` set (first_pass_record r m) = record_names r \<union> fst ` set m"
  by (auto simp: first_pass_record_def fold_add_referenced_keys AList.dom_update
      record_names_def)

lemma fold_first_pass_keys:
  "fst ` set (fold first_pass_record rs m) = (\<Union>r \<in> set rs. record_names r) \<union> fst ` set m"
  by (induction rs arbitrary: m) (auto simp: first_pass_record_keys)

lemma set_update_sub: "set (AList.update k v m) \<subseteq> insert (k, v) (set m)"
  by (induction m) auto

lemma update_ok: "node_map_ok m \<Longrightarrow> node_map_ok (AList.update k (new_node k) m)"
  unfolding node_map_ok_def using set_update_sub[of k "new_node k" m]
  by (auto simp: AList.distinct_update)

lemma add_referenced_ok: "node_map_ok m \<Longrightarrow> node_map_ok (add_referenced n m)"
  by (simp add: add_referenced_def update_ok)

lemma fold_add_referenced_ok: "node_map_ok m \<Longrightarrow> node_map_ok (fold add_referenced xs m)"
  by (induction xs arbitrary: m) (auto simp: add_referenced_ok)

lemma first_pass_record_ok: "node_map_ok m \<Longrightarrow> node_map_ok (first_pass_record r m)"
  by (simp add: first_pass_record_def fold_add_referenced_ok update_ok)

lemma fold_first_pass_ok: "node_map_ok m \<Longrightarrow> node_map_ok (fold first_pass_record rs m)"
  by (induction rs arbitrary: m) (auto simp: first_pass_record_ok)

lemma node_map_ok_ids: "node_map_ok m \<Longrightarrow> map node_id (map snd m) = map fst m"
  by (induction m) (auto simp: node_map_ok_def new_node_def)

lemma first_pass_ids: "node_id ` set (first_pass rs) = (\<Union>r \<in> set rs. record_names r)"
proof -
  have ok: "node_map_ok (fold first_pass_record rs [])"
    by (rule fold_first_pass_ok) (simp add: node_map_ok_def)
  have "node_id ` set (first_pass rs) = set (map node_id (map snd (fold first_pass_record rs [])))"
    by (simp add: first_pass_def image_image)
  also have "\<dots> = fst ` set (fold first_pass_record rs [])"
    by (simp only: node_map_ok_ids[OF ok] set_map)
  finally show ?thesis by (simp add: fold_first_pass_keys)
qed

lemma first_pass_distinct: "distinct (map node_id (first_pass rs))"
proof -
  have ok: "node_map_ok (fold first_pass_record rs [])"
    by (rule fold_first_pass_ok) (simp add: node_map_ok_def)
  show ?thesis
    unfolding first_pass_def node_map_ok_ids[OF ok] using ok by (simp add: node_map_ok_def)
qed

subsection \<open>Second pass\<close>

lemma second_pass_record_pairs: "second_pass_record r st = fold add_pair (record_pairs r) st"
  by (simp add: second_pass_record_def record_pairs_def fold_map comp_def add_pair_def)

lemma fold_second_pass_pairs:
  "fold second_pass_record rs st = fold add_pair (declared_pairs rs) st"
  by (induction rs arbitrary: st) (auto simp: declared_pairs_def second_pass_record_pairs)

lemma second_pass_pairs: "second_pass rs = snd (fold add_pair (declared_pairs rs) ({}, []))"
  by (simp add: second_pass_def fold_second_pass_pairs)

lemma link_pair_new [simp]: "link_pair (new_link s t) = (s, t)"
  by (simp add: link_pair_def new_link_def)

lemma add_pair_ok: "link_state_ok st \<Longrightarrow> link_state_ok (add_pair p st)"
  by (auto simp: link_state_ok_def add_pair_def add_link_def pair_key_def)

lemma fold_add_pair_ok: "link_state_ok st \<Longrightarrow> link_state_ok (fold add_pair ps st)"
  by (induction ps arbitrary: st) (auto simp: add_pair_ok)

lemma fold_add_pair_keys: "fst (fold add_pair ps st) = fst st \<union> pair_key ` set ps"
  by (induction ps arbitrary: st) (auto simp: add_pair_def add_link_def pair_key_def)

lemma fold_add_pair_sub:
  "set (snd (fold add_pair ps st)) \<subseteq> set (snd st) \<union> (\<lambda>p. new_link (fst p) (snd p)) ` set ps"
proof (induction ps arbitrary: st)
  case Nil
  show ?case by simp
next
  case (Cons p ps)
  have "set (snd (add_pair p st)) \<subseteq> insert (new_link (fst p) (snd p)) (set (snd st))"
    by (auto simp: add_pair_def add_link_def)
  with Cons.IH[of "add_pair p st"] show ?case by auto
qed

text \<open>The keys of the links emitted are pairwise different, hence so are the links.\<close>

lemma second_pass_keys_distinct: "distinct (map (pair_key \<circ> link_pair) (second_pass rs))"
proof -
  have "link_state_ok (fold add_pair (declared_pairs rs) ({}, []))"
    by (rule fold_add_pair_ok) (simp add: link_state_ok_def)
  then show ?thesis by (simp add: second_pass_pairs link_state_ok_def)
qed

lemma second_pass_pairs_distinct: "distinct (map link_pair (second_pass rs))"
  using second_pass_keys_distinct[of rs] by (simp add: distinct_map comp_def inj_on_def)

lemma second_pass_sub:
  "l \<in> set (second_pass rs) \<Longrightarrow> \<exists>p \<in> set (declared_pairs rs). l = new_link (fst p) (snd p)"
  using fold_add_pair_sub[of "declared_pairs rs" "({}, [])"] by (auto simp: second_pass_pairs)

lemma second_pass_key_present:
  assumes "p \<in> set (declared_pairs rs)"
  shows "\<exists>l \<in> set (second_pass rs). pair_key (link_pair l) = pair_key p"
proof -
  have ok: "link_state_ok (fold add_pair (declared_pairs rs) ({}, []))"
    by (rule fold_add_pair_ok) (simp add: link_state_ok_def)
  have "pair_key p \<in> fst (fold add_pair (declared_pairs rs) ({}, []))"
    using assms by (simp add: fold_add_pair_keys)
  with ok show ?thesis by (auto simp: link_state_ok_def second_pass_pairs)
qed

text \<open>
  Where no two declared pairs share a key, the links are the declared pairs, however each
  pair was declared.
\<close>

lemma second_pass_inj:
  assumes "inj_on pair_key (set (declared_pairs rs))"
  shows "link_pair ` set (second_pass rs) = set (declared_pairs rs)"
proof
  show "link_pair ` set (second_pass rs) \<subseteq> set (declared_pairs rs)"
    by (auto dest!: second_pass_sub)
  show "set (declared_pairs rs) \<subseteq> link_pair ` set (second_pass rs)"
  proof
    fix p assume p: "p \<in> set (declared_pairs rs)"
    then obtain l where l: "l \<in> set (second_pass rs)" "pair_key (link_pair l) = pair_key p"
      using second_pass_key_present by blast
    from l(1) have "link_pair l \<in> set (declared_pairs rs)"
      by (auto dest!: second_pass_sub)
    with assms p l(2) have "link_pair l = p" by (auto dest: inj_onD)
    with l(1) show "p \<in> link_pair ` set (second_pass rs)" by auto
  qed
qed

lemma declared_pairs_names:
  "p \<in> set (declared_pairs rs) \<Longrightarrow>
     fst p \<in> (\<Union>r \<in> set rs. record_names r) \<and> snd p \<in> (\<Union>r \<in> set rs. record_names r)"
  by (auto simp: declared_pairs_def record_pairs_def record_names_def)

lemma referenced_declared:
  "r \<in> set rs \<Longrightarrow> k \<in> set (ins r) \<union> set (outs r) \<Longrightarrow>
     (k, name r) \<in> set (declared_pairs rs) \<or> (name r, k) \<in> set (declared_pairs rs)"
  by (auto simp: declared_pairs_def record_pairs_def)


section \<open>Properties of the scorer\<close>

lemma map_of_bump: "map_of (bump k m) = (map_of m)(k \<mapsto> stored m k + 1)"
  by (simp add: bump_def stored_def AList.update_conv')

lemma stored_bump: "stored (bump k m) j = stored m j + (if j = k then 1 else 0)"
  by (simp add: stored_def map_of_bump)

lemma stored_count_link: "stored (count_link l m) k = stored m k + degree [l] k"
  by (simp add: count_link_def stored_bump degree_def)

lemma degree_Cons: "degree (l # ls) k = degree [l] k + degree ls k"
  by (simp add: degree_def)

lemma stored_fold: "stored (fold count_link ls m) k = stored m k + degree ls k"
proof (induction ls arbitrary: m)
  case Nil
  show ?case by (simp add: degree_def)
next
  case (Cons l ls)
  show ?case by (simp add: Cons.IH stored_count_link degree_Cons[of l ls])
qed

lemma none_count_link:
  "map_of (count_link l m) k = None \<longleftrightarrow> map_of m k = None \<and> degree [l] k = 0"
  by (auto simp: count_link_def map_of_bump degree_def)

lemma none_fold:
  "map_of (fold count_link ls m) k = None \<longleftrightarrow> map_of m k = None \<and> degree ls k = 0"
proof (induction ls arbitrary: m)
  case Nil
  show ?case by (simp add: degree_def)
next
  case (Cons l ls)
  show ?case by (simp add: Cons.IH none_count_link degree_Cons[of l ls] conj_assoc)
qed

text \<open>The count map holds, for the ids that are an end of some link, their degree.\<close>

lemma connectionCount_lookup:
  "map_of (connectionCount ls) k = (if degree ls k = 0 then None else Some (degree ls k))"
proof (cases "map_of (connectionCount ls) k")
  case None
  then show ?thesis using none_fold[of ls "[]" k] by (simp add: connectionCount_def)
next
  case (Some c)
  then have "degree ls k \<noteq> 0" using none_fold[of ls "[]" k] by (simp add: connectionCount_def)
  moreover have "c = degree ls k"
    using Some stored_fold[of ls "[]" k] by (simp add: connectionCount_def stored_def)
  ultimately show ?thesis using Some by simp
qed

lemma distinct_count_link: "distinct (map fst m) \<Longrightarrow> distinct (map fst (count_link l m))"
  by (simp add: count_link_def bump_def AList.distinct_update)

lemma distinct_fold_count:
  "distinct (map fst m) \<Longrightarrow> distinct (map fst (fold count_link ls m))"
  by (induction ls arbitrary: m) (auto simp: distinct_count_link)

lemma connectionCount_distinct: "distinct (map fst (connectionCount ls))"
  by (simp add: connectionCount_def distinct_fold_count)

lemma connectionCount_values:
  assumes "p \<in> set (connectionCount ls)"
  shows "snd p = degree ls (fst p) \<and> 0 < snd p"
proof -
  have "map_of (connectionCount ls) (fst p) = Some (snd p)"
    using assms connectionCount_distinct[of ls] by simp
  then show ?thesis by (simp add: connectionCount_lookup split: if_splits)
qed

lemma maxConnections_Max: "maxConnections m = Max (insert 1 (snd ` set m))"
  using Max.set_eq_fold[of 1 "map snd m"] by (simp add: maxConnections_def)

lemma maxConnections_pos: "1 \<le> maxConnections m"
  by (simp add: maxConnections_Max)

lemma maxConnections_ge: "p \<in> set m \<Longrightarrow> snd p \<le> maxConnections m"
  by (simp add: maxConnections_Max)

lemma node_connections_bounds:
  "1 \<le> node_connections m n \<and> node_connections m n \<le> maxConnections m"
proof (cases "map_of m (node_id n)")
  case None
  then show ?thesis using maxConnections_pos[of m] by (simp add: node_connections_def)
next
  case (Some c)
  then have "(node_id n, c) \<in> set m" by (rule map_of_SomeD)
  then have "c \<le> maxConnections m" using maxConnections_ge by fastforce
  with Some show ?thesis using maxConnections_pos[of m] by (auto simp: node_connections_def)
qed

lemma node_connections_degree:
  "node_connections (connectionCount ls) n =
     (if degree ls (node_id n) = 0 then 1 else degree ls (node_id n))"
  by (simp add: node_connections_def connectionCount_lookup)

lemma importance_enrich:
  "importance (enrich_node m n) = Some (real (node_connections m n) / real (maxConnections m))"
  by (simp add: enrich_node_def Let_def)

lemma connections_enrich: "connections (enrich_node m n) = Some (node_connections m n)"
  by (simp add: enrich_node_def Let_def)

lemma node_id_enrich [simp]: "node_id (enrich_node m n) = node_id n"
  by (simp add: enrich_node_def Let_def)

lemma importance_bounds: "\<exists>i. importance (enrich_node m n) = Some i \<and> 0 < i \<and> i \<le> 1"
proof -
  have b: "1 \<le> node_connections m n" "node_connections m n \<le> maxConnections m"
    using node_connections_bounds by auto
  then have "0 < real (node_connections m n) / real (maxConnections m)" by simp
  moreover have "real (node_connections m n) / real (maxConnections m) \<le> 1"
    using b by (simp add: divide_le_eq_1)
  ultimately show ?thesis by (simp add: importance_enrich)
qed

lemma degree_zero_all:
  assumes "\<forall>k. degree ls k = 0"
  shows "ls = []"
proof (cases ls)
  case Nil
  then show ?thesis by simp
next
  case (Cons l ls')
  from assms have "degree ls (end_id (source l)) = 0" by blast
  with Cons show ?thesis by (simp add: degree_def)
qed

lemma max_degree_importance:
  assumes "\<forall>k. degree ls k \<le> degree ls (node_id n)"
  shows "importance (enrich_node (connectionCount ls) n) = Some 1"
proof (cases "degree ls (node_id n) = 0")
  case True
  with assms have "ls = []" using degree_zero_all[of ls] by simp
  then show ?thesis
    by (simp add: importance_enrich connectionCount_def node_connections_def
        maxConnections_def)
next
  case False
  let ?d = "degree ls (node_id n)"
  let ?m = "connectionCount ls"
  have look: "map_of ?m (node_id n) = Some ?d"
    using False by (simp add: connectionCount_lookup)
  then have c: "node_connections ?m n = ?d"
    using False by (simp add: node_connections_def)
  have mem: "(node_id n, ?d) \<in> set ?m"
    using look by (rule map_of_SomeD)
  have "Max (insert 1 (snd ` set ?m)) = ?d"
  proof (rule Max_eqI)
    show "finite (insert 1 (snd ` set ?m))" by simp
    show "?d \<in> insert 1 (snd ` set ?m)" using mem by force
    fix y assume "y \<in> insert 1 (snd ` set ?m)"
    then show "y \<le> ?d" using False assms connectionCount_values[of _ ls] by auto
  qed
  then have "maxConnections ?m = ?d" by (simp add: maxConnections_Max)
  with c False show ?thesis by (simp add: importance_enrich)
qed

lemma edgeless_importance: "importance (enrich_node (connectionCount []) n) = Some 1"
  by (simp add: importance_enrich connectionCount_def node_connections_def maxConnections_def)

text \<open>What a result of \<^const>\<open>enrichedData\<close> is made of.\<close>

lemma enrichedData_SomeD:
  assumes "enrichedData gd = Some g"
  shows "\<exists>ns. ns \<noteq> [] \<and> nodes g = map (enrich_node (connectionCount (links g))) ns"
  using assms
  by (auto simp: enrichedData_def score_def split: option.splits graph_data.splits if_splits)

lemma enrichedData_neighbor_lists:
  assumes "enrichedData (Some (NeighborLists rs)) = Some g"
  shows "nodes g = map (enrich_node (connectionCount (second_pass rs))) (first_pass rs)
       \<and> links g = second_pass rs"
  using assms by (auto simp: enrichedData_def score_def split: if_splits)


section \<open>The two-record scenario\<close>

text \<open>
  Claim C7. Building from the two records A (outgoing B) and B (incoming A) gives
  exactly the nodes A and B, the single link from A to B, \<open>connections\<close> 1 and
  \<open>importance\<close> 1 for both nodes and the size 70 for both; and for every node and every
  count map the size stored in \<open>val\<close> is 25 + importance * 45.
\<close>

theorem scenario_AB_build:
  "enrichedData (Some (NeighborLists scenario_AB)) =
     Some \<lparr>nodes =
             [\<lparr>node_id = ''A'', node_name = ''A'', val = 70, group = None,
               connections = Some 1, importance = Some 1, node_x = None, node_y = None\<rparr>,
              \<lparr>node_id = ''B'', node_name = ''B'', val = 70, group = None,
               connections = Some 1, importance = Some 1, node_x = None, node_y = None\<rparr>],
           links = [\<lparr>source = EndId ''A'', target = EndId ''B''\<rparr>]\<rparr>
   \<and> importance (enrich_node m n) = Some (real (node_connections m n) / real (maxConnections m))
   \<and> val (enrich_node m n) = 25 + (real (node_connections m n) / real (maxConnections m)) * 45"
  by (simp add: scenario_AB_def build_defs)


section \<open>No dangling links\<close>

lemma degree_member:
  assumes "l \<in> set ls"
  shows "1 \<le> degree ls (end_id (source l)) \<and> 1 \<le> degree ls (end_id (target l))"
proof -
  have "l \<in> set (filter (\<lambda>x. end_id (source x) = end_id (source l)) ls)"
    using assms by simp
  then have s: "0 < length (filter (\<lambda>x. end_id (source x) = end_id (source l)) ls)"
    by (rule length_pos_if_in_set)
  have "l \<in> set (filter (\<lambda>x. end_id (target x) = end_id (target l)) ls)"
    using assms by simp
  then have t: "0 < length (filter (\<lambda>x. end_id (target x) = end_id (target l)) ls)"
    by (rule length_pos_if_in_set)
  from s t show ?thesis unfolding degree_def by linarith
qed

text \<open>
  In the graph built from neighbour-list records, both ends of every link are ids of nodes;
  the name of every record and every name in a list \<open>ins\<close> or \<open>outs\<close> is the id of a
  node, whether or not it has a record of its own; every node carries \<open>connections\<close> of
  at least 1, by the default of \<open>connectionCount.get(node.id) || 1\<close> if by nothing else;
  and where no two declared pairs share a link key, a referenced name is an end of at least
  one link.
\<close>

lemma no_dangling_links:
  assumes "enrichedData (Some (NeighborLists rs)) = Some g"
  shows "(\<forall>l \<in> set (links g). end_id (source l) \<in> node_ids g \<and> end_id (target l) \<in> node_ids g)
       \<and> (\<forall>r \<in> set rs. name r \<in> node_ids g \<and> set (ins r) \<subseteq> node_ids g
              \<and> set (outs r) \<subseteq> node_ids g)
       \<and> (\<forall>n \<in> set (nodes g). \<exists>c. connections n = Some c \<and> 1 \<le> c)
       \<and> (inj_on pair_key (set (declared_pairs rs)) \<longrightarrow>
            (\<forall>r \<in> set rs. \<forall>k \<in> set (ins r) \<union> set (outs r). 1 \<le> degree (links g) k))"
proof -
  from assms
  have n: "nodes g = map (enrich_node (connectionCount (second_pass rs))) (first_pass rs)"
    and l: "links g = second_pass rs"
    using enrichedData_neighbor_lists by auto
  have ids: "node_ids g = (\<Union>r \<in> set rs. record_names r)"
    by (simp add: node_ids_def n image_image first_pass_ids[symmetric])
  have 1: "\<forall>l \<in> set (links g). end_id (source l) \<in> node_ids g \<and> end_id (target l) \<in> node_ids g"
  proof
    fix x assume "x \<in> set (links g)"
    then have "\<exists>p \<in> set (declared_pairs rs). x = new_link (fst p) (snd p)"
      using second_pass_sub[of x rs] l by simp
    then obtain p where p: "p \<in> set (declared_pairs rs)" "x = new_link (fst p) (snd p)"
      by blast
    from p(2) have "end_id (source x) = fst p" "end_id (target x) = snd p"
      by (simp_all add: new_link_def)
    with declared_pairs_names[OF p(1)]
    show "end_id (source x) \<in> node_ids g \<and> end_id (target x) \<in> node_ids g"
      by (simp add: ids)
  qed
  have 2: "\<forall>r \<in> set rs. name r \<in> node_ids g \<and> set (ins r) \<subseteq> node_ids g
              \<and> set (outs r) \<subseteq> node_ids g"
    unfolding ids by (auto simp: record_names_def)
  have 3: "\<forall>n \<in> set (nodes g). \<exists>c. connections n = Some c \<and> 1 \<le> c"
    using node_connections_bounds by (auto simp: n connections_enrich)
  have 4: "inj_on pair_key (set (declared_pairs rs)) \<longrightarrow>
            (\<forall>r \<in> set rs. \<forall>k \<in> set (ins r) \<union> set (outs r). 1 \<le> degree (links g) k)"
  proof (intro impI ballI)
    fix r k assume inj: "inj_on pair_key (set (declared_pairs rs))"
      and r: "r \<in> set rs" and k: "k \<in> set (ins r) \<union> set (outs r)"
    from referenced_declared[OF r k] second_pass_inj[OF inj]
    obtain x where x: "x \<in> set (second_pass rs)"
      "link_pair x = (k, name r) \<or> link_pair x = (name r, k)"
      by (metis (no_types, lifting) imageE)
    from x(2) have "end_id (source x) = k \<or> end_id (target x) = k"
      by (auto simp: link_pair_def)
    with degree_member[OF x(1)] show "1 \<le> degree (links g) k" by (auto simp: l)
  qed
  from 1 2 3 4 show ?thesis by blast
qed

text \<open>
  Claim C4. The ends of all links are nodes, and a name that is only referenced becomes a
  node. It does not always keep its link: in \<^const>\<open>hyphen_first\<close> the name B-C occurs
  only in the list \<open>outs\<close> of A and has no record; it becomes a node, but the link from A
  to B-C, the only one declared for it, is not emitted, its key \<open>A-B-C\<close> being taken by
  the link from A-B to C. No link ends at B-C, the count map has no entry for it, and its
  \<open>connections\<close> is the default 1.
\<close>

theorem referenced_node_without_link:
  "''B-C'' \<in> set (outs \<lparr>name = ''A'', ins = [], outs = [''B-C'']\<rparr>)
   \<and> ''B-C'' \<notin> set (map name hyphen_first)
   \<and> map node_id (first_pass hyphen_first) = [''A-B'', ''C'', ''A'', ''B-C'']
   \<and> map link_pair (second_pass hyphen_first) = [(''A-B'', ''C'')]
   \<and> degree (second_pass hyphen_first) ''B-C'' = 0
   \<and> map_of (connectionCount (second_pass hyphen_first)) ''B-C'' = None
   \<and> map_option (map (\<lambda>n. (node_id n, connections n)) \<circ> nodes)
         (enrichedData (Some (NeighborLists hyphen_first)))
       = Some [(''A-B'', Some 1), (''C'', Some 1), (''A'', Some 1), (''B-C'', Some 1)]
   \<and> map_option (map link_pair \<circ> links) (enrichedData (Some (NeighborLists hyphen_first)))
       = Some [(''A-B'', ''C'')]"
  by (simp add: hyphen_first_def link_pair_def degree_def build_defs)


section \<open>Deduplication of links\<close>

text \<open>
  Claim C3. No pair (source, target) is emitted twice (\<open>second_pass_pairs_distinct\<close>), and
  where no two declared pairs share a key the links are exactly the declared pairs
  (\<open>second_pass_inj\<close>). With names that contain a hyphen the claim fails. In
  \<^const>\<open>hyphen_both_ways\<close> the pair (A-B, C) is declared twice, as outgoing on A-B and as
  incoming on C, and the two declarations merge into no link at all: the key \<open>A-B-C\<close> is
  taken by the link from A to B-C, declared first. And \<^const>\<open>hyphen_outgoing\<close> and
  \<^const>\<open>hyphen_incoming\<close> declare the same two pairs, the first as outgoing and the
  second as incoming, and give different links.
\<close>

theorem merged_declaration_lost:
  "(''A-B'', ''C'') \<in> set (record_pairs \<lparr>name = ''A-B'', ins = [], outs = [''C'']\<rparr>)
   \<and> (''A-B'', ''C'') \<in> set (record_pairs \<lparr>name = ''C'', ins = [''A-B''], outs = []\<rparr>)
   \<and> map link_pair (second_pass hyphen_both_ways) = [(''A'', ''B-C'')]
   \<and> map_option (map link_pair \<circ> links) (enrichedData (Some (NeighborLists hyphen_both_ways)))
       = Some [(''A'', ''B-C'')]
   \<and> set (declared_pairs hyphen_outgoing) = set (declared_pairs hyphen_incoming)
   \<and> map link_pair (second_pass hyphen_outgoing) = [(''A-B'', ''C'')]
   \<and> map link_pair (second_pass hyphen_incoming) = [(''A'', ''B-C'')]"
  by (simp add: hyphen_both_ways_def hyphen_outgoing_def hyphen_incoming_def declared_pairs_def
      record_pairs_def link_pair_def build_defs insert_commute)

text \<open>
  Claim C9. The key of a link is its source, a hyphen and its target. The pairs (A-B, C) and
  (A, B-C) are different and have the same key; when both are declared, only the first one
  becomes a link.
\<close>

theorem link_key_collision:
  "linkId s t = s @ ''-'' @ t
   \<and> (''A-B'', ''C'') \<noteq> (''A'', ''B-C'')
   \<and> linkId ''A-B'' ''C'' = linkId ''A'' ''B-C''
   \<and> declared_pairs hyphen_first = [(''A-B'', ''C''), (''A'', ''B-C'')]
   \<and> map link_pair (second_pass hyphen_first) = [(''A-B'', ''C'')]
   \<and> map_option (map link_pair \<circ> links) (enrichedData (Some (NeighborLists hyphen_first)))
       = Some [(''A-B'', ''C'')]"
  by (simp add: hyphen_first_def declared_pairs_def record_pairs_def link_pair_def build_defs)


section \<open>Range of the importance\<close>

lemma degree_pos_endpoint:
  assumes "0 < degree ls k"
  shows "\<exists>l \<in> set ls. end_id (source l) = k \<or> end_id (target l) = k"
proof (rule ccontr)
  assume "\<not> (\<exists>l \<in> set ls. end_id (source l) = k \<or> end_id (target l) = k)"
  then have "filter (\<lambda>l. end_id (source l) = k) ls = []"
    "filter (\<lambda>l. end_id (target l) = k) ls = []"
    by (auto simp: filter_empty_conv)
  then have "degree ls k = 0" by (simp add: degree_def)
  with assms show False by simp
qed

text \<open>Where every link ends at nodes, the largest degree among the nodes is the largest of all.\<close>

lemma max_over_nodes:
  assumes "no_dangling g"
    "\<forall>m \<in> set (nodes g). degree (links g) (node_id m) \<le> degree (links g) (node_id n)"
  shows "degree (links g) k \<le> degree (links g) (node_id n)"
proof (cases "degree (links g) k = 0")
  case True
  then show ?thesis by simp
next
  case False
  then obtain l where "l \<in> set (links g)" "end_id (source l) = k \<or> end_id (target l) = k"
    using degree_pos_endpoint[of "links g" k] by auto
  with assms(1) have "k \<in> node_ids g" by (auto simp: no_dangling_def)
  with assms(2) show ?thesis by (auto simp: node_ids_def)
qed

text \<open>
  Claim C2, as the specification states it, gives every node of a graph without links the
  importance 0. The graph built from a single record without neighbours has no link, and
  its node has the importance 1.
\<close>

theorem edgeless_importance_not_zero:
  "enrichedData (Some (NeighborLists lone_A)) = Some graph_lone_A
   \<and> links graph_lone_A = []
   \<and> map importance (nodes graph_lone_A) = [Some 1]
   \<and> map importance (nodes graph_lone_A) \<noteq> [Some 0]"
  by (simp add: lone_A_def graph_lone_A_def build_defs)

text \<open>
  Claim C2, amended. In every graph that \<open>enrichedData\<close> returns, each node carries
  \<open>connections\<close>, which is its degree, or 1 when no link ends at it, and
  \<open>importance = connections / maxConnections\<close>, where \<open>maxConnections\<close> is the largest
  count and at least 1; the importance is greater than 0 and at most 1; a node whose degree
  is the largest of all (the largest among the nodes, where every link ends at nodes) has
  the importance 1; and in a graph without links every node has the importance 1.
\<close>

theorem importance_range:
  assumes "enrichedData gd = Some g"
  shows "(\<forall>n \<in> set (nodes g). \<exists>c i. connections n = Some c \<and> importance n = Some i
            \<and> c = (if degree (links g) (node_id n) = 0 then 1 else degree (links g) (node_id n))
            \<and> i = real c / real (maxConnections (connectionCount (links g)))
            \<and> 0 < i \<and> i \<le> 1)
       \<and> (\<forall>n \<in> set (nodes g).
            (\<forall>k. degree (links g) k \<le> degree (links g) (node_id n)) \<longrightarrow> importance n = Some 1)
       \<and> (no_dangling g \<longrightarrow>
            (\<forall>n \<in> set (nodes g).
               (\<forall>m \<in> set (nodes g). degree (links g) (node_id m) \<le> degree (links g) (node_id n))
               \<longrightarrow> importance n = Some 1))
       \<and> (links g = [] \<longrightarrow> (\<forall>n \<in> set (nodes g). importance n = Some 1))"
proof -
  from enrichedData_SomeD[OF assms] obtain ns
    where ns: "nodes g = map (enrich_node (connectionCount (links g))) ns" by blast
  have 1: "\<forall>n \<in> set (nodes g). \<exists>c i. connections n = Some c \<and> importance n = Some i
            \<and> c = (if degree (links g) (node_id n) = 0 then 1 else degree (links g) (node_id n))
            \<and> i = real c / real (maxConnections (connectionCount (links g)))
            \<and> 0 < i \<and> i \<le> 1"
  proof
    fix n assume "n \<in> set (nodes g)"
    then obtain n0 where n0: "n = enrich_node (connectionCount (links g)) n0"
      by (auto simp: ns)
    from importance_bounds[of "connectionCount (links g)" n0]
    show "\<exists>c i. connections n = Some c \<and> importance n = Some i
            \<and> c = (if degree (links g) (node_id n) = 0 then 1 else degree (links g) (node_id n))
            \<and> i = real c / real (maxConnections (connectionCount (links g)))
            \<and> 0 < i \<and> i \<le> 1"
      by (simp add: n0 connections_enrich importance_enrich node_connections_degree)
  qed
  have 2: "\<forall>n \<in> set (nodes g).
            (\<forall>k. degree (links g) k \<le> degree (links g) (node_id n)) \<longrightarrow> importance n = Some 1"
    using max_degree_importance by (auto simp: ns)
  have 3: "links g = [] \<longrightarrow> (\<forall>n \<in> set (nodes g). importance n = Some 1)"
  proof
    assume e: "links g = []"
    show "\<forall>n \<in> set (nodes g). importance n = Some 1"
      using ns unfolding e by (auto simp: edgeless_importance)
  qed
  have 4: "no_dangling g \<longrightarrow>
            (\<forall>n \<in> set (nodes g).
               (\<forall>m \<in> set (nodes g). degree (links g) (node_id m) \<le> degree (links g) (node_id n))
               \<longrightarrow> importance n = Some 1)"
    using 2 max_over_nodes[of g] by blast
  from 1 2 3 4 show ?thesis by blast
qed

theorem importance_range_witness:
  "(enrichedData (Some (NeighborLists scenario_AB)) = Some graph_AB
     \<and> no_dangling graph_AB
     \<and> (\<forall>k. degree (links graph_AB) k \<le> degree (links graph_AB) ''A'')
     \<and> map importance (nodes graph_AB) = [Some 1, Some 1])
 \<and> (enrichedData (Some (NeighborLists lone_A)) = Some graph_lone_A
     \<and> links graph_lone_A = []
     \<and> map importance (nodes graph_lone_A) = [Some 1])"
proof -
  have h1: "enrichedData (Some (NeighborLists scenario_AB)) = Some graph_AB"
    by (simp add: scenario_AB_def graph_AB_def build_defs)
  have h2: "enrichedData (Some (NeighborLists lone_A)) = Some graph_lone_A"
    by (simp add: lone_A_def graph_lone_A_def build_defs)
  have d: "\<forall>k. degree (links graph_AB) k \<le> degree (links graph_AB) ''A''"
    by (simp add: graph_AB_def degree_def)
  have c: "no_dangling graph_AB"
    by (simp add: graph_AB_def no_dangling_def node_ids_def)
  from importance_range[OF h1] importance_range[OF h2] h1 h2 d c show ?thesis
    by (simp add: graph_AB_def graph_lone_A_def)
qed


section \<open>Properties of the search filter\<close>

lemma trim_empty_iff: "trim s = [] \<longleftrightarrow> (\<forall>c \<in> set s. is_whitespace c)"
proof
  assume "\<forall>c \<in> set s. is_whitespace c"
  then show "trim s = []" by (auto simp: trim_def dest: set_dropWhileD)
next
  assume "trim s = []"
  then have a: "\<forall>c \<in> set (dropWhile is_whitespace s). is_whitespace c"
    by (simp add: trim_def dropWhile_eq_Nil_conv)
  show "\<forall>c \<in> set s. is_whitespace c"
  proof (cases "dropWhile is_whitespace s")
    case Nil
    then show ?thesis by (simp add: dropWhile_eq_Nil_conv)
  next
    case (Cons c cs)
    then have "\<not> is_whitespace c" using hd_dropWhile[of is_whitespace s] by simp
    with a Cons show ?thesis by simp
  qed
qed

lemma str_includes_sublist: "str_includes s q \<longleftrightarrow> sublist q s"
  by (induction s) (auto simp: sublist_Cons_right)

lemma fold_expand_link:
  "k \<in> fold (expand_link M) ls E \<longleftrightarrow>
     k \<in> E \<or> (\<exists>l \<in> set ls. (end_id (source l) \<in> M \<and> end_id (target l) = k)
                         \<or> (end_id (target l) \<in> M \<and> end_id (source l) = k))"
proof (induction ls arbitrary: E)
  case Nil
  show ?case by simp
next
  case (Cons l ls)
  show ?case by (simp add: Cons.IH) (auto simp: expand_link_def Let_def)
qed

lemma matched_is_seed:
  "k \<in> set (map node_id (filter (matches (toLowerCase q)) (nodes g))) \<longleftrightarrow> is_seed g q k"
  by (auto simp: is_seed_def matches_def)

lemma expanded_one_hop:
  "k \<in> fold (expand_link (set (map node_id (filter (matches (toLowerCase q)) (nodes g)))))
          (links g) (set (map node_id (filter (matches (toLowerCase q)) (nodes g))))
   \<longleftrightarrow> one_hop g q k"
  unfolding fold_expand_link matched_is_seed one_hop_def by blast

lemma filteredData_refines:
  "filteredData (Some g) q = (if trim q = [] then Some g else Some (one_hop_graph g q))"
  unfolding filteredData_def Let_def expanded_one_hop one_hop_graph_def by simp

lemma is_seed_one_hop_graph: "is_seed (one_hop_graph g q) q k \<longleftrightarrow> is_seed g q k"
  by (auto simp: is_seed_def one_hop_graph_def one_hop_def)

lemma one_hop_one_hop_graph:
  assumes "one_hop g q k"
  shows "one_hop (one_hop_graph g q) q k"
proof (cases "is_seed g q k")
  case True
  then show ?thesis by (simp add: one_hop_def is_seed_one_hop_graph)
next
  case False
  with assms obtain l where l: "l \<in> set (links g)"
    "(is_seed g q (end_id (source l)) \<and> end_id (target l) = k) \<or>
     (is_seed g q (end_id (target l)) \<and> end_id (source l) = k)"
    by (auto simp: one_hop_def)
  then have "one_hop g q (end_id (source l))" "one_hop g q (end_id (target l))"
    by (auto simp: one_hop_def)
  with l(1) have "l \<in> set (links (one_hop_graph g q))" by (simp add: one_hop_graph_def)
  with l(2) show ?thesis
    unfolding one_hop_def[of "one_hop_graph g q"] is_seed_one_hop_graph by blast
qed

lemma one_hop_graph_idem: "one_hop_graph (one_hop_graph g q) q = one_hop_graph g q"
proof -
  have n: "filter (\<lambda>n. one_hop (one_hop_graph g q) q (node_id n)) (nodes (one_hop_graph g q))
         = nodes (one_hop_graph g q)"
    by (rule filter_True)
      (auto simp: one_hop_graph_def intro: one_hop_one_hop_graph[unfolded one_hop_graph_def])
  have l: "filter (\<lambda>l. one_hop (one_hop_graph g q) q (end_id (source l))
                     \<and> one_hop (one_hop_graph g q) q (end_id (target l)))
             (links (one_hop_graph g q))
         = links (one_hop_graph g q)"
    by (rule filter_True)
      (auto simp: one_hop_graph_def intro: one_hop_one_hop_graph[unfolded one_hop_graph_def])
  show ?thesis
    unfolding one_hop_graph_def[of "one_hop_graph g q"] n l by simp
qed

lemma node_ids_one_hop_graph:
  "k \<in> node_ids (one_hop_graph g q) \<longleftrightarrow> k \<in> node_ids g \<and> one_hop g q k"
  by (auto simp: node_ids_def one_hop_graph_def)

lemma links_closed:
  assumes "no_dangling g" "l \<in> set (links g)"
  shows "l \<in> set (links (one_hop_graph g q)) \<longleftrightarrow>
         end_id (source l) \<in> node_ids (one_hop_graph g q)
         \<and> end_id (target l) \<in> node_ids (one_hop_graph g q)"
  using assms unfolding node_ids_one_hop_graph by (auto simp: no_dangling_def one_hop_graph_def)

text \<open>
  Claim C5. A query that is empty or all whitespace returns the graph as it is. Any other
  query returns the sub-graph \<^const>\<open>one_hop_graph\<close>: the seeds are the ids of the nodes
  whose lower-cased name contains the lower-cased query as a contiguous run; a node is kept
  when its id is a seed or is joined to a seed by a link in either direction, and no other
  node is; a link is kept when both its ends are such ids, which, in a graph whose links end
  at nodes, are the ids of the nodes kept.
\<close>

theorem filteredData_one_hop:
  "filteredData (Some g) q =
     (if (\<forall>c \<in> set q. is_whitespace c) then Some g else Some (one_hop_graph g q))
   \<and> (is_seed g q k \<longleftrightarrow>
        (\<exists>n \<in> set (nodes g). node_id n = k \<and> sublist (toLowerCase q) (toLowerCase (node_name n))))
   \<and> (\<forall>n \<in> set (nodes g). n \<in> set (nodes (one_hop_graph g q)) \<longleftrightarrow> one_hop g q (node_id n))
   \<and> (\<forall>l \<in> set (links g). l \<in> set (links (one_hop_graph g q)) \<longleftrightarrow>
          one_hop g q (end_id (source l)) \<and> one_hop g q (end_id (target l)))
   \<and> (no_dangling g \<longrightarrow>
        (\<forall>l \<in> set (links g). l \<in> set (links (one_hop_graph g q)) \<longleftrightarrow>
           end_id (source l) \<in> node_ids (one_hop_graph g q)
           \<and> end_id (target l) \<in> node_ids (one_hop_graph g q)))"
proof -
  have 1: "filteredData (Some g) q =
     (if (\<forall>c \<in> set q. is_whitespace c) then Some g else Some (one_hop_graph g q))"
    by (simp only: filteredData_refines trim_empty_iff)
  have 2: "is_seed g q k \<longleftrightarrow>
        (\<exists>n \<in> set (nodes g). node_id n = k \<and> sublist (toLowerCase q) (toLowerCase (node_name n)))"
    by (simp add: is_seed_def str_includes_sublist)
  have 3: "\<forall>n \<in> set (nodes g). n \<in> set (nodes (one_hop_graph g q)) \<longleftrightarrow> one_hop g q (node_id n)"
    by (simp add: one_hop_graph_def)
  have 4: "\<forall>l \<in> set (links g). l \<in> set (links (one_hop_graph g q)) \<longleftrightarrow>
          one_hop g q (end_id (source l)) \<and> one_hop g q (end_id (target l))"
    by (simp add: one_hop_graph_def)
  have 5: "no_dangling g \<longrightarrow>
        (\<forall>l \<in> set (links g). l \<in> set (links (one_hop_graph g q)) \<longleftrightarrow>
           end_id (source l) \<in> node_ids (one_hop_graph g q)
           \<and> end_id (target l) \<in> node_ids (one_hop_graph g q))"
    using links_closed by blast
  from 1 2 3 4 5 show ?thesis by blast
qed

lemmas filter_defs = is_seed_def one_hop_def one_hop_graph_def no_dangling_def node_ids_def
  toLowerCase_def lower_char_def char_of_def bit_0 is_whitespace_def new_node_def new_link_def
  Let_def

theorem filteredData_one_hop_witness:
  "trim ''al'' \<noteq> []
   \<and> no_dangling graph_chain
   \<and> filteredData (Some graph_chain) ''al'' =
       Some \<lparr>nodes = [new_node ''Alpha'', new_node ''Beta''],
             links = [new_link ''Alpha'' ''Beta'']\<rparr>
   \<and> trim '' '' = []
   \<and> filteredData (Some graph_chain) '' '' = Some graph_chain"
  using filteredData_one_hop[of graph_chain "''al''" "''Alpha''"]
        filteredData_one_hop[of graph_chain "'' ''" "''Alpha''"]
  by (simp add: graph_chain_def filter_defs trim_def)

text \<open>
  Claim C6. Filtering the result of the filter again, with the same query, returns the same
  nodes and the same links, for every graph (also when there is none) and every query.
\<close>

theorem filteredData_idempotent: "filteredData (filteredData e q) q = filteredData e q"
proof (cases e)
  case None
  then show ?thesis by (simp add: filteredData_def)
next
  case (Some g)
  then show ?thesis by (simp add: filteredData_refines one_hop_graph_idem)
qed



section \<open>Phase of the flow particles\<close>

lemma fold_char_sum:
  "fold (\<lambda>b a. a + of_char b) s (n::nat) = n + sum_list (map of_char s)"
  by (induction s arbitrary: n) (auto simp: add.assoc)

lemma linkHash_linkId: "linkHash (linkId s t) = linkHash s + 45 + linkHash t"
  by (simp add: linkHash_def linkId_def fold_char_sum)

text \<open>The hash is a sum of character codes, so a link and its reverse have the same hash.\<close>

lemma linkHash_swap: "linkHash (linkId s t) = linkHash (linkId t s)"
  by (simp add: linkHash_linkId)

text \<open>
  Claim C8. The phase of a link is a function of its two end ids alone, the same on every
  frame. It is not different for different links: the records of \<^const>\<open>two_way\<close> give
  the links from A to B and from B to A, both with the offset 0.76, and their particles are
  at the same parameter of the curve at every tick.
\<close>

theorem reverse_links_in_lockstep:
  "map link_pair (second_pass two_way) = [(''A'', ''B''), (''B'', ''A'')]
   \<and> particleOffset (new_node ''A'') (new_node ''B'') = 76 / 100
   \<and> particleOffset (new_node ''B'') (new_node ''A'') = 76 / 100
   \<and> particle_t tick (particleOffset (new_node ''A'') (new_node ''B'')) p
       = particle_t tick (particleOffset (new_node ''B'') (new_node ''A'')) p"
  by (simp add: two_way_def link_pair_def build_defs particleOffset_def linkHash_linkId
      linkHash_def)


section \<open>Guards of the render callbacks\<close>

lemma finite_xy_None:
  "finite_xy n = None \<longleftrightarrow> \<not> isFinite (node_x n) \<or> \<not> isFinite (node_y n)"
  by (auto simp: finite_xy_def isFinite_def split: option.splits jsnum.splits)

lemma nodeCanvasObject_skip: "finite_xy n = None \<Longrightarrow> nodeCanvasObject h n = []"
  by (simp add: nodeCanvasObject_def)

lemma nodeCanvasObject_draw: "finite_xy n \<noteq> None \<Longrightarrow> nodeCanvasObject h n \<noteq> []"
  by (auto simp: nodeCanvasObject_def Let_def)

lemma linkCanvasObject_skip_missing:
  "resolve_end g (source l) = None \<or> resolve_end g (target l) = None \<Longrightarrow>
     linkCanvasObject g tick l = []"
  by (auto simp: linkCanvasObject_def split: option.splits)

lemma linkCanvasObject_skip_coords:
  "resolve_end g (source l) = Some s \<Longrightarrow> resolve_end g (target l) = Some t \<Longrightarrow>
     finite_xy s = None \<or> finite_xy t = None \<Longrightarrow> linkCanvasObject g tick l = []"
  by (auto simp: linkCanvasObject_def split: option.splits)

lemma linkCanvasObject_draw:
  "resolve_end g (source l) = Some s \<Longrightarrow> resolve_end g (target l) = Some t \<Longrightarrow>
     finite_xy s \<noteq> None \<Longrightarrow> finite_xy t \<noteq> None \<Longrightarrow> linkCanvasObject g tick l \<noteq> []"
  by (auto simp: linkCanvasObject_def Let_def split: option.splits)

text \<open>
  Claim C10. The node callback draws nothing for a node whose x or y is not a finite number,
  and draws for a node whose coordinates are both finite. The link callback draws nothing
  for a link with an end that is not found among the nodes, or with an end node that has a
  coordinate that is not finite, and draws when both ends are found with finite
  coordinates. The callbacks read the graph, the node and the link and return drawing calls
  only: what is skipped on one frame is still in the graph, and is drawn on a later frame
  on which its coordinates are finite.
\<close>

theorem non_finite_skipped:
  "(\<not> isFinite (node_x node) \<or> \<not> isFinite (node_y node) \<longrightarrow> nodeCanvasObject hovered node = [])
 \<and> (isFinite (node_x node) \<and> isFinite (node_y node) \<longrightarrow> nodeCanvasObject hovered node \<noteq> [])
 \<and> (resolve_end g (source link) = None \<or> resolve_end g (target link) = None
      \<longrightarrow> linkCanvasObject g tick link = [])
 \<and> (resolve_end g (source link) = Some s \<and> resolve_end g (target link) = Some t
      \<and> (\<not> isFinite (node_x s) \<or> \<not> isFinite (node_y s)
          \<or> \<not> isFinite (node_x t) \<or> \<not> isFinite (node_y t))
      \<longrightarrow> linkCanvasObject g tick link = [])
 \<and> (resolve_end g (source link) = Some s \<and> resolve_end g (target link) = Some t
      \<and> isFinite (node_x s) \<and> isFinite (node_y s) \<and> isFinite (node_x t) \<and> isFinite (node_y t)
      \<longrightarrow> linkCanvasObject g tick link \<noteq> [])"
  using nodeCanvasObject_skip[of node hovered] nodeCanvasObject_draw[of node hovered]
    linkCanvasObject_skip_missing[of g link tick]
    linkCanvasObject_skip_coords[of g link s t tick]
    linkCanvasObject_draw[of g link s t tick]
  unfolding finite_xy_None by blast

lemmas render_defs = nodeCanvasObject_def linkCanvasObject_def finite_xy_def resolve_end_def
  node_at_def new_node_def new_link_def node_label_def particleOffset_def particle_t_def
  bezier_def linkHash_def linkId_def isFinite_def Let_def

theorem non_finite_skipped_witness:
  "nodeCanvasObject None (node_at ''B'' NaN (Num 4)) = []
 \<and> nodeCanvasObject None (node_at ''B'' (Num 4) (Num 4)) =
      [FillCircle 4 4 25, FillCircle 4 4 17, FillCircle 4 4 9,
       FillCircle 4 4 1, FillCircle 4 4 1, StrokeCircle 4 4 1]
 \<and> linkCanvasObject graph_warming 0 (new_link ''A'' ''B'') = []
 \<and> linkCanvasObject graph_warming 0 (new_link ''A'' ''C'') = []
 \<and> linkCanvasObject graph_settled 0 (new_link ''A'' ''B'') \<noteq> []
 \<and> nodes graph_warming = [node_at ''A'' (Num 0) (Num 0), node_at ''B'' NaN (Num 4)]"
  using non_finite_skipped[of "node_at ''B'' NaN (Num 4)" None graph_warming
          "new_link ''A'' ''B''" 0 "node_at ''A'' (Num 0) (Num 0)" "node_at ''B'' NaN (Num 4)"]
        non_finite_skipped[of "node_at ''B'' (Num 4) (Num 4)" None graph_warming
          "new_link ''A'' ''C''" 0 "node_at ''A'' (Num 0) (Num 0)" "node_at ''B'' NaN (Num 4)"]
        non_finite_skipped[of "node_at ''B'' (Num 4) (Num 4)" None graph_settled
          "new_link ''A'' ''B''" 0 "node_at ''A'' (Num 0) (Num 0)"
          "node_at ''B'' (Num 4) (Num 4)"]
  by (simp add: graph_warming_def graph_settled_def render_defs)


section \<open>Selection and late responses\<close>

lemma outcome_text_nonempty: "outcome_text out \<noteq> []"
  by (simp add: outcome_text_def split: fetch_outcome.splits option.splits)

lemmas selection_defs = run_def step_def handleNodeClick_def fetch_start_def fetch_resolve_def
  panel_def shows_graph_def drawn_nodes_def

text \<open>
  Claim C1, as the specification states it, has the panel never show the late result of X
  under the selection Y. On the graph of X and Y, after the clicks on X and on Y, the
  response for Y and then the response for X, the panel is titled Y and shows the definition
  of X.
\<close>

theorem late_result_overwrites:
  "panel (Some graph_XY)
     (run (Some graph_XY) (Some ''p'')
        [Click concept_X, Click concept_Y,
         Arrive ''Y'' (ResponseOk (Some ''definition of Y'')),
         Arrive ''X'' (ResponseOk (Some ''definition of X''))]
        initial_state)
   = Some (''Y'', Definition ''definition of X'')"
  by (simp add: selection_defs outcome_text_def getRelatedConcepts_def initial_state_def
      graph_XY_def concept_X_def concept_Y_def set_add_def)

text \<open>
  Claim C1, amended. On a graph that shows the nodes X and Y, with a project id, after the
  clicks on X and then on Y the panel is titled Y and shows the spinner; the result for Y is
  shown when it arrives; and a result is shown when it arrives whatever concept it was
  requested for: the result for X replaces the one for Y when it arrives after it, and is
  shown under the title Y when it arrives before it. In any state with an open panel, the
  arrival of any response in flight puts its text in the panel.
\<close>

theorem results_shown_as_they_arrive:
  assumes "x \<in> set (drawn_nodes filtered)" "y \<in> set (drawn_nodes filtered)"
    "projectId = Some p" "p \<noteq> []" "node_id x \<noteq> node_id y"
  shows "panel filtered (run filtered projectId [Click x, Click y] st)
           = Some (node_name y, Loading)
       \<and> panel filtered (run filtered projectId [Click x, Click y, Arrive (node_id y) outY] st)
           = Some (node_name y, Definition (outcome_text outY))
       \<and> panel filtered (run filtered projectId
                  [Click x, Click y, Arrive (node_id y) outY, Arrive (node_id x) outX] st)
           = Some (node_name y, Definition (outcome_text outX))
       \<and> panel filtered (run filtered projectId [Click x, Click y, Arrive (node_id x) outX] st)
           = Some (node_name y, Definition (outcome_text outX))
       \<and> (selectedNode st = Some sel \<and> showNotes st \<and> nodeId \<in> set (in_flight st) \<longrightarrow>
            panel filtered (step filtered projectId (Arrive nodeId out) st)
              = Some (node_name sel, Definition (outcome_text out)))"
proof -
  from assms(1) have g: "shows_graph filtered"
    by (auto simp: shows_graph_def drawn_nodes_def split: option.splits)
  from g assms show ?thesis
    by (simp add: run_def step_def handleNodeClick_def fetch_start_def fetch_resolve_def
        panel_def outcome_text_nonempty)
qed

theorem results_shown_as_they_arrive_witness:
  "concept_X \<in> set (drawn_nodes (Some graph_XY))
 \<and> concept_Y \<in> set (drawn_nodes (Some graph_XY))
 \<and> panel (Some graph_XY)
      (run (Some graph_XY) (Some ''p'') [Click concept_X, Click concept_Y] initial_state)
     = Some (''Y'', Loading)
 \<and> panel (Some graph_XY)
      (run (Some graph_XY) (Some ''p'')
         [Click concept_X, Click concept_Y,
          Arrive ''Y'' (ResponseOk (Some ''definition of Y''))] initial_state)
     = Some (''Y'', Definition ''definition of Y'')
 \<and> panel (Some graph_XY)
      (run (Some graph_XY) (Some ''p'')
         [Click concept_X, Click concept_Y, Arrive ''X'' FetchError] initial_state)
     = Some (''Y'', Definition ''Error fetching definition'')"
proof -
  have m: "concept_X \<in> set (drawn_nodes (Some graph_XY))"
    "concept_Y \<in> set (drawn_nodes (Some graph_XY))"
    by (simp_all add: drawn_nodes_def graph_XY_def)
  have d: "node_id concept_X \<noteq> node_id concept_Y"
    by (simp add: concept_X_def concept_Y_def)
  from results_shown_as_they_arrive[OF m refl _ d, of "''p''" initial_state
         "ResponseOk (Some ''definition of Y'')" FetchError]
    m show ?thesis
    by (simp add: concept_X_def concept_Y_def outcome_text_def)
qed

text \<open>Where the component shows the placeholder, no click is possible and no panel is shown.\<close>

lemma no_panel_without_graph:
  "\<not> shows_graph filtered \<Longrightarrow>
     panel filtered st = None \<and> step filtered projectId (Click node) st = st"
  by (auto simp: panel_def step_def shows_graph_def drawn_nodes_def split: option.splits)

end
